theory Spec2Isabelle
  imports Main "HOL-Library.Word"
begin

section \<open>The RESP encoder of redis-cpp (resp/serialization.h)\<close>

text \<open>
  Every class of \<^verbatim>\<open>rediscpp::resp::serialization\<close> has one member function
  \<^verbatim>\<open>put(std::ostream &)\<close> that appends the wire form of the object to the stream.
  The stream is modelled by the bytes it has received so far, and every \<open>put\<close> takes
  the stream and returns it extended (explicit state passing). The stream is a sink in
  good state with the formatting flags a stream has by default (decimal base, width 0,
  no \<^verbatim>\<open>showpos\<close>), such as a fresh \<^verbatim>\<open>std::ostringstream\<close>.
\<close>

type_synonym ostream = string

subsection \<open>Markers\<close>

text \<open>
  The header \<^verbatim>\<open>redis-cpp/resp/detail/marker.h\<close>, which declares the constants
  \<^verbatim>\<open>detail::marker::...\<close> that every \<open>put\<close> writes, is not among the sources. Each
  constant is taken from the wire format table of the spec: a one-byte type marker in
  front of each kind of value, and the two bytes of the terminator.
\<close>

text \<open>Modelled from the spec: \<^verbatim>\<open>marker::simple_string\<close> (\<^verbatim>\<open>marker.h\<close> is missing), the byte \<open>+\<close>.\<close>

definition marker_simple_string :: char where
  "marker_simple_string = CHR ''+''"

text \<open>Modelled from the spec: \<^verbatim>\<open>marker::error_message\<close> (\<^verbatim>\<open>marker.h\<close> is missing), the byte \<open>-\<close>.\<close>

definition marker_error_message :: char where
  "marker_error_message = CHR ''-''"

text \<open>Modelled from the spec: \<^verbatim>\<open>marker::integer\<close> (\<^verbatim>\<open>marker.h\<close> is missing), the byte \<open>:\<close>.\<close>

definition marker_integer :: char where
  "marker_integer = CHR '':''"

text \<open>Modelled from the spec: \<^verbatim>\<open>marker::bulk_string\<close> (\<^verbatim>\<open>marker.h\<close> is missing), the byte \<open>$\<close>.\<close>

definition marker_bulk_string :: char where
  "marker_bulk_string = CHR ''$''"

text \<open>Modelled from the spec: \<^verbatim>\<open>marker::array\<close> (\<^verbatim>\<open>marker.h\<close> is missing), the byte \<open>*\<close>.\<close>

definition marker_array :: char where
  "marker_array = CHR ''*''"

text \<open>Modelled from the spec: \<^verbatim>\<open>marker::cr\<close> (\<^verbatim>\<open>marker.h\<close> is missing), the carriage return, first byte of the terminator.\<close>

definition marker_cr :: char where
  "marker_cr = CHR 0x0D"

text \<open>Modelled from the spec: \<^verbatim>\<open>marker::lf\<close> (\<^verbatim>\<open>marker.h\<close> is missing), the line feed, second byte of the terminator.\<close>

definition marker_lf :: char where
  "marker_lf = CHR 0x0A"

subsection \<open>The stream inserters of the standard library\<close>

text \<open>
  \<^verbatim>\<open>stream << n\<close> for an integer \<open>n\<close> writes its decimal digits, most significant first,
  without leading zeros, after a minus sign when \<open>n\<close> is negative. \<open>show_nat\<close> is the
  inserter of the unsigned \<^verbatim>\<open>std::size_t\<close>, \<open>show_int\<close> the one of \<^verbatim>\<open>int\<close> and
  \<^verbatim>\<open>std::int64_t\<close>.
\<close>

definition digit_char :: "nat \<Rightarrow> char" where
  "digit_char d = ''0123456789'' ! d"

fun show_nat :: "nat \<Rightarrow> string" where
  "show_nat n = (if n < 10 then [digit_char n] else show_nat (n div 10) @ [digit_char (n mod 10)])"

declare show_nat.simps [simp del]

definition show_int :: "int \<Rightarrow> string" where
  "show_int i = (if i < 0 then CHR ''-'' # show_nat (nat (- i)) else show_nat (nat i))"

text \<open>
  Reading a digit string as a number, most significant digit first: what a decimal
  representation denotes.
\<close>

definition digit_val :: "char \<Rightarrow> nat" where
  "digit_val c = of_char c - 48"

definition read_nat :: "string \<Rightarrow> nat" where
  "read_nat ds = foldl (\<lambda>acc c. 10 * acc + digit_val c) 0 ds"

text \<open>
  The canonical decimal representation of a number, in the spec's words: decimal digits
  only, at least one, no leading zero on a number of several digits, denoting the number;
  for a negative integer a minus sign in front of the representation of its absolute
  value. These predicates do not refer to \<open>show_nat\<close> and \<open>show_int\<close>.
\<close>

definition is_digit :: "char \<Rightarrow> bool" where
  "is_digit c = (c \<in> set ''0123456789'')"

definition canonical_nat :: "string \<Rightarrow> nat \<Rightarrow> bool" where
  "canonical_nat ds n =
     (case ds of
        [] \<Rightarrow> False
      | c # cs \<Rightarrow>
          list_all is_digit ds \<and> (cs = [] \<or> c \<in> set ''123456789'') \<and> read_nat ds = n)"

definition canonical_int :: "string \<Rightarrow> int \<Rightarrow> bool" where
  "canonical_int ds i =
     (if i < 0
      then (case ds of [] \<Rightarrow> False | c # cs \<Rightarrow> c = CHR ''-'' \<and> canonical_nat cs (nat (- i)))
      else canonical_nat ds (nat i))"

text \<open>
  A \<^verbatim>\<open>std::string_view\<close> is a data pointer and a length. The pointer is null (\<open>None\<close>,
  the default-constructed view, of length 0) or points at the viewed bytes (\<open>Some bytes\<close>,
  possibly none: the view of \<^verbatim>\<open>""\<close>). \<^verbatim>\<open>stream << view\<close> writes the viewed bytes as
  they are, null bytes included.
\<close>

type_synonym string_view = "string option"

definition view_bytes :: "string_view \<Rightarrow> string" where
  "view_bytes v = (case v of None \<Rightarrow> [] | Some bytes \<Rightarrow> bytes)"

definition view_length :: "string_view \<Rightarrow> nat" where
  "view_length v = length (view_bytes v)"

subsection \<open>Scalar values\<close>

text \<open>\<^verbatim>\<open>simple_string::put\<close> and \<^verbatim>\<open>error_message::put\<close>.\<close>

definition simple_string_put :: "ostream \<Rightarrow> string_view \<Rightarrow> ostream" where
  "simple_string_put stream val =
     stream @ [marker_simple_string] @ view_bytes val @ [marker_cr] @ [marker_lf]"

definition error_message_put :: "ostream \<Rightarrow> string_view \<Rightarrow> ostream" where
  "error_message_put stream val =
     stream @ [marker_error_message] @ view_bytes val @ [marker_cr] @ [marker_lf]"

text \<open>
  \<^verbatim>\<open>integer<T>\<close> accepts every \<open>T\<close> with \<^verbatim>\<open>std::is_integral_v\<close>: \<^verbatim>\<open>bool\<close> and the signed
  and unsigned integer types of each width (the character types are among them; the
  128-bit types are integral under the GNU dialects). A value of the class is the type
  together with the stored \<^verbatim>\<open>value_\<close> (\<open>val\<close> below).
\<close>

datatype integral =
    Bool bool
  | Int8 "8 word" | UInt8 "8 word"
  | Int16 "16 word" | UInt16 "16 word"
  | Int32 "32 word" | UInt32 "32 word"
  | Int64 "64 word" | UInt64 "64 word"
  | Int128 "128 word" | UInt128 "128 word"

text \<open>
  \<^verbatim>\<open>static_cast<std::int64_t>(value_)\<close>: a signed source is sign-extended or truncated,
  an unsigned one zero-extended or truncated, \<^verbatim>\<open>true\<close> is 1.
\<close>

fun static_cast_int64 :: "integral \<Rightarrow> 64 word" where
  "static_cast_int64 (Bool b) = (if b then 1 else 0)"
| "static_cast_int64 (Int8 w) = scast w"
| "static_cast_int64 (UInt8 w) = ucast w"
| "static_cast_int64 (Int16 w) = scast w"
| "static_cast_int64 (UInt16 w) = ucast w"
| "static_cast_int64 (Int32 w) = scast w"
| "static_cast_int64 (UInt32 w) = ucast w"
| "static_cast_int64 (Int64 w) = w"
| "static_cast_int64 (UInt64 w) = w"
| "static_cast_int64 (Int128 w) = scast w"
| "static_cast_int64 (UInt128 w) = ucast w"

definition integer_put :: "ostream \<Rightarrow> integral \<Rightarrow> ostream" where
  "integer_put stream val =
     stream @ [marker_integer] @ show_int (sint (static_cast_int64 val))
       @ [marker_cr] @ [marker_lf]"

text \<open>The number an integral value denotes in its own type.\<close>

fun integral_value :: "integral \<Rightarrow> int" where
  "integral_value (Bool b) = (if b then 1 else 0)"
| "integral_value (Int8 w) = sint w"
| "integral_value (UInt8 w) = uint w"
| "integral_value (Int16 w) = sint w"
| "integral_value (UInt16 w) = uint w"
| "integral_value (Int32 w) = sint w"
| "integral_value (UInt32 w) = uint w"
| "integral_value (Int64 w) = sint w"
| "integral_value (UInt64 w) = uint w"
| "integral_value (Int128 w) = sint w"
| "integral_value (UInt128 w) = uint w"

text \<open>\<^verbatim>\<open>bulk_string::put\<close>: the branch is on the view's data pointer.\<close>

definition bulk_string_put :: "ostream \<Rightarrow> string_view \<Rightarrow> ostream" where
  "bulk_string_put stream val =
     (case val of
        Some bytes \<Rightarrow>
          stream @ [marker_bulk_string] @ show_nat (view_length val)
            @ [marker_cr] @ [marker_lf] @ view_bytes val @ [marker_cr] @ [marker_lf]
      | None \<Rightarrow>
          stream @ [marker_bulk_string] @ show_int (- 1) @ [marker_cr] @ [marker_lf])"

text \<open>
  \<^verbatim>\<open>binary_data\<close> stores the pointer and the length it was given, unrelated to each
  other. The field \<open>data_ptr\<close> (\<^verbatim>\<open>data_\<close>) is \<open>None\<close> for the null pointer and \<open>Some mem\<close>
  for a pointer at the bytes \<open>mem\<close> of the caller's buffer, from the pointer to the
  buffer's end; the field \<open>length_sz\<close> (\<^verbatim>\<open>length_\<close>) is a 64-bit \<^verbatim>\<open>std::size_t\<close>.

  \<^verbatim>\<open>stream.write(data_, static_cast<std::streamsize>(length_))\<close> reads \<^verbatim>\<open>length_\<close> bytes
  at the pointer. The cast reads the length as a signed 64-bit count; a negative count
  makes the write fail, and a count beyond the buffer's end reads outside of it, which is
  undefined in C++. Both are outcomes of their own in the model, and nothing is said of
  the stream's content then.
\<close>

datatype error = Negative_count | Read_out_of_bounds

record binary_data =
  data_ptr :: "string option"
  length_sz :: "64 word"

definition binary_data_put :: "ostream \<Rightarrow> binary_data \<Rightarrow> error + ostream" where
  "binary_data_put stream b =
     (case data_ptr b of
        Some mem \<Rightarrow>
          (let count = sint (length_sz b) in
           if count < 0 then Inl Negative_count
           else if length mem < nat count then Inl Read_out_of_bounds
           else Inr (stream @ [marker_bulk_string] @ show_nat (unat (length_sz b))
                       @ [marker_cr] @ [marker_lf]
                       @ take (nat count) mem
                       @ [marker_cr] @ [marker_lf]))
      | None \<Rightarrow>
          Inr (stream @ [marker_bulk_string] @ show_int (- 1) @ [marker_cr] @ [marker_lf]))"

text \<open>\<^verbatim>\<open>null::put\<close> writes a default-constructed \<^verbatim>\<open>bulk_string{}\<close>, whose view is the null view.\<close>

definition null_put :: "ostream \<Rightarrow> ostream" where
  "null_put stream = bulk_string_put stream None"

subsection \<open>Arrays\<close>

text \<open>
  A value that has a \<open>put\<close>: an object of one of the classes above or of an instance of
  the class template \<^verbatim>\<open>array<T ...>\<close>. An object of the primary template holds a
  \<^verbatim>\<open>std::variant\<close> of the tuple of its items and of a \<^verbatim>\<open>std::forward_list<std::string_view>\<close>;
  an object of the explicit specialization \<^verbatim>\<open>array<null>\<close> holds nothing.
\<close>

datatype item =
    Simple_string string_view
  | Error_message string_view
  | Integer integral
  | Bulk_string string_view
  | Binary_data binary_data
  | Null
  | Array array_t
and array_t =
    Tuple_array "item list"
  | List_array "string_view list"
  | Null_array

text \<open>
  The constructors of the class \<^verbatim>\<open>array<T ...>\<close>, the class being named with its template
  arguments: \<^verbatim>\<open>array<T ...>{values ...}\<close>, \<open>T ...\<close> the items' types.
  \<^verbatim>\<open>array(T && ... values)\<close> stores the tuple of the items. For the one item \<^verbatim>\<open>null\<close> the
  class \<^verbatim>\<open>array<null>\<close> is the explicit specialization, whose constructor
  \<^verbatim>\<open>array(null const &)\<close> drops the item. \<^verbatim>\<open>array(list_type const &list)\<close> stores the list.
\<close>

fun array_values :: "item list \<Rightarrow> array_t" where
  "array_values [Null] = Null_array"
| "array_values vals = Tuple_array vals"


fun array_deduced :: "item list \<Rightarrow> array_t" where
  "array_deduced [Array a] = a"
| "array_deduced vals = array_values vals"

definition array_list :: "string_view list \<Rightarrow> array_t" where
  "array_list list = List_array list"

text \<open>The first loop of the list branch: \<^verbatim>\<open>std::size_t count = 0; for (...) ++count;\<close>\<close>

definition count_items :: "string_view list \<Rightarrow> 64 word" where
  "count_items vals = fold (\<lambda>i count. count + 1) vals 0"

text \<open>The second loop: \<^verbatim>\<open>for (auto const &i : values) put(stream, simple_string{i});\<close>\<close>

definition put_list :: "ostream \<Rightarrow> string_view list \<Rightarrow> ostream" where
  "put_list stream vals = fold (\<lambda>i s. simple_string_put s i) vals stream"

text \<open>
  The function template \<^verbatim>\<open>serialization::put(stream, value)\<close> calls \<^verbatim>\<open>value.put(stream)\<close>;
  \<open>array_put\<close> is \<^verbatim>\<open>array<T ...>::put\<close> with its two visitors, and \<^verbatim>\<open>array<null>::put\<close>;
  \<open>put_items\<close> is the fold \<^verbatim>\<open>(print(args), ...)\<close> over the tuple, left to right.
\<close>

fun put :: "ostream \<Rightarrow> item \<Rightarrow> error + ostream"
  and array_put :: "ostream \<Rightarrow> array_t \<Rightarrow> error + ostream"
  and put_items :: "ostream \<Rightarrow> item list \<Rightarrow> error + ostream" where
  "put stream (Simple_string v) = Inr (simple_string_put stream v)"
| "put stream (Error_message v) = Inr (error_message_put stream v)"
| "put stream (Integer v) = Inr (integer_put stream v)"
| "put stream (Bulk_string v) = Inr (bulk_string_put stream v)"
| "put stream (Binary_data b) = binary_data_put stream b"
| "put stream Null = Inr (null_put stream)"
| "put stream (Array a) = array_put stream a"
| "array_put stream (Tuple_array vals) =
     put_items (stream @ [marker_array] @ show_nat (length vals) @ [marker_cr] @ [marker_lf])
       vals"
| "array_put stream (List_array vals) =
     Inr (put_list
            (stream @ [marker_array] @ show_nat (unat (count_items vals))
               @ [marker_cr] @ [marker_lf])
            vals)"
| "array_put stream Null_array =
     Inr (stream @ [marker_array] @ show_int (- 1) @ [marker_cr] @ [marker_lf])"
| "put_items stream [] = Inr stream"
| "put_items stream (arg # args) =
     (case put stream arg of Inl e \<Rightarrow> Inl e | Inr stream' \<Rightarrow> put_items stream' args)"

subsection \<open>The terminator\<close>

text \<open>The two bytes that end every encoded unit, as the \<open>put\<close> functions write them.\<close>

definition terminator :: string where
  "terminator = [marker_cr, marker_lf]"

subsection \<open>Reading a simple string back\<close>

text \<open>
  No decoder is among the sources (the spec leaves reply parsing to a collaborator). The
  spec gives the wire form of a simple string, \<open>+<text>\<close> followed by the terminator, and
  calls RESP a line-oriented format.
\<close>

text \<open>
  Modelled from the spec: the decoder of a whole encoded unit (no decoder is among the
  sources). It checks the leading \<open>+\<close> and the trailing terminator of the wire form and
  strips both.
\<close>

definition decode_simple_string :: "string \<Rightarrow> string option" where
  "decode_simple_string bytes =
     (case bytes of
        [] \<Rightarrow> None
      | m # rest \<Rightarrow>
          if m = CHR ''+'' \<and> 2 \<le> length rest \<and> drop (length rest - 2) rest = terminator
          then Some (take (length rest - 2) rest)
          else None)"

text \<open>
  Modelled from the spec: whether a text contains the terminator sequence, which the spec
  forbids in a simple string (no such check is among the sources).
\<close>

fun has_terminator :: "string \<Rightarrow> bool" where
  "has_terminator (c # d # rest) =
     ((c = marker_cr \<and> d = marker_lf) \<or> has_terminator (d # rest))"
| "has_terminator [c] = False"
| "has_terminator [] = False"

text \<open>
  Modelled from the spec: reading a line off the front of a byte sequence (no reader is
  among the sources). The line ends at the first terminator; the result is the line and
  the bytes after the terminator, or \<open>None\<close> when there is no terminator.
\<close>

fun read_line :: "string \<Rightarrow> (string \<times> string) option" where
  "read_line (c # d # rest) =
     (if c = marker_cr \<and> d = marker_lf then Some ([], rest)
      else (case read_line (d # rest) of
              None \<Rightarrow> None
            | Some (line, rest') \<Rightarrow> Some (c # line, rest')))"
| "read_line [c] = None"
| "read_line [] = None"

text \<open>
  Modelled from the spec: the line-oriented decoder of a simple string (no decoder is
  among the sources). After the leading \<open>+\<close> the text runs to the first terminator.
\<close>

definition read_simple_string :: "string \<Rightarrow> (string \<times> string) option" where
  "read_simple_string bytes =
     (case bytes of
        [] \<Rightarrow> None
      | m # rest \<Rightarrow> if m = CHR ''+'' then read_line rest else None)"

section \<open>Properties\<close>

lemmas marker_defs =
  marker_simple_string_def marker_error_message_def marker_integer_def
  marker_bulk_string_def marker_array_def marker_cr_def marker_lf_def

subsection \<open>Decimal output and 64-bit conversions\<close>

lemma show_nat_nonempty: "show_nat n \<noteq> []"
  by (subst show_nat.simps) simp

lemma length_show_nat: "1 \<le> length (show_nat n)"
  using show_nat_nonempty [of n] by (cases "show_nat n") simp_all

lemma show_nat_0: "show_nat 0 = ''0''"
  by (simp add: show_nat.simps digit_char_def)

lemma show_int_minus_1: "show_int (- 1) = ''-1''"
  by (simp add: show_int_def show_nat.simps digit_char_def)

text \<open>
  The decimal form is canonical: it reads back as the number, and it has no leading zero
  unless the number is 0.
\<close>

lemma digit_cases:
  assumes "d < (10::nat)"
  shows "d = 0 \<or> d = 1 \<or> d = 2 \<or> d = 3 \<or> d = 4 \<or> d = 5 \<or> d = 6 \<or> d = 7 \<or> d = 8 \<or> d = 9"
  using assms by arith

lemma digit_val_digit_char: "d < 10 \<Longrightarrow> digit_val (digit_char d) = d"
  using digit_cases [of d] by (auto simp: digit_val_def digit_char_def)

lemma digit_char_zero_iff: "d < 10 \<Longrightarrow> digit_char d = CHR ''0'' \<longleftrightarrow> d = 0"
  using digit_cases [of d] by (auto simp: digit_char_def)

lemma read_nat_snoc: "read_nat (ds @ [c]) = 10 * read_nat ds + digit_val c"
  by (simp add: read_nat_def)

lemma read_nat_show_nat: "read_nat (show_nat n) = n"
proof (induction n rule: show_nat.induct)
  case (1 n)
  show ?case
  proof (cases "n < 10")
    case True
    then show ?thesis
      by (subst show_nat.simps) (simp add: read_nat_def digit_val_digit_char)
  next
    case False
    with 1 have "read_nat (show_nat (n div 10)) = n div 10" by simp
    with False show ?thesis
      by (subst show_nat.simps) (simp add: read_nat_snoc digit_val_digit_char)
  qed
qed

lemma hd_show_nat: "0 < n \<Longrightarrow> hd (show_nat n) \<noteq> CHR ''0''"
proof (induction n rule: show_nat.induct)
  case (1 n)
  show ?case
  proof (cases "n < 10")
    case True
    with 1 show ?thesis
      by (subst show_nat.simps) (simp add: digit_char_zero_iff)
  next
    case False
    with 1 have "hd (show_nat (n div 10)) \<noteq> CHR ''0''" by simp
    with False show ?thesis
      by (subst show_nat.simps) (simp add: show_nat_nonempty)
  qed
qed

text \<open>
  The stream inserters write the canonical decimal representation, and nothing else is
  one: \<open>canonical_nat\<close> and \<open>canonical_int\<close> determine the digits.
\<close>

lemma is_digit_digit_char: "d < 10 \<Longrightarrow> is_digit (digit_char d)"
  using digit_cases [of d] by (auto simp: is_digit_def digit_char_def)

lemma digit_char_nonzero: "0 < d \<Longrightarrow> d < 10 \<Longrightarrow> digit_char d \<in> set ''123456789''"
  using digit_cases [of d] by (auto simp: digit_char_def)

lemma is_digit_show_nat: "list_all is_digit (show_nat n)"
proof (induction n rule: show_nat.induct)
  case (1 n)
  show ?case
  proof (cases "n < 10")
    case True
    then show ?thesis by (subst show_nat.simps) (simp add: is_digit_digit_char)
  next
    case False
    with 1 have "list_all is_digit (show_nat (n div 10))" by simp
    with False show ?thesis by (subst show_nat.simps) (simp add: is_digit_digit_char)
  qed
qed

lemma hd_show_nat_nonzero: "0 < n \<Longrightarrow> hd (show_nat n) \<in> set ''123456789''"
proof (induction n rule: show_nat.induct)
  case (1 n)
  show ?case
  proof (cases "n < 10")
    case True
    with "1.prems" have "digit_char n \<in> set ''123456789''" by (rule digit_char_nonzero)
    with True show ?thesis by (subst show_nat.simps) simp
  next
    case False
    with 1 have "hd (show_nat (n div 10)) \<in> set ''123456789''" by simp
    with False show ?thesis
      by (subst show_nat.simps) (simp add: show_nat_nonempty)
  qed
qed

lemma canonical_nat_show_nat: "canonical_nat (show_nat n) n"
proof (cases "n < 10")
  case True
  then have "show_nat n = [digit_char n]" by (subst show_nat.simps) simp
  with True show ?thesis
    by (simp add: canonical_nat_def is_digit_digit_char read_nat_def digit_val_digit_char)
next
  case False
  then have pos: "0 < n" by simp
  obtain c cs where eq: "show_nat n = c # cs"
    using show_nat_nonempty [of n] by (cases "show_nat n") auto
  from hd_show_nat_nonzero [OF pos] eq have "c \<in> set ''123456789''" by simp
  moreover from is_digit_show_nat [of n] eq have "list_all is_digit (c # cs)" by simp
  moreover from read_nat_show_nat [of n] eq have "read_nat (c # cs) = n" by simp
  ultimately show ?thesis by (simp add: canonical_nat_def eq)
qed

lemma canonical_int_show_int: "canonical_int (show_int i) i"
  by (simp add: canonical_int_def show_int_def canonical_nat_show_nat)

lemma is_digit_cases:
  assumes "is_digit c"
  obtains d where "d < 10" and "c = digit_char d"
proof -
  from assms have "c = digit_char 0 \<or> c = digit_char 1 \<or> c = digit_char 2 \<or>
      c = digit_char 3 \<or> c = digit_char 4 \<or> c = digit_char 5 \<or> c = digit_char 6 \<or>
      c = digit_char 7 \<or> c = digit_char 8 \<or> c = digit_char 9"
    by (auto simp: is_digit_def digit_char_def)
  then show thesis
    using that [of 0] that [of 1] that [of 2] that [of 3] that [of 4] that [of 5]
      that [of 6] that [of 7] that [of 8] that [of 9]
    by (elim disjE) simp_all
qed

lemma read_nat_Cons: "read_nat (c # cs) = digit_val c * 10 ^ length cs + read_nat cs"
proof (induction cs arbitrary: c rule: rev_induct)
  case Nil
  show ?case by (simp add: read_nat_def)
next
  case (snoc x xs)
  have "read_nat (c # xs @ [x]) = 10 * read_nat (c # xs) + digit_val x"
    using read_nat_snoc [of "c # xs" x] by simp
  also have "\<dots> = 10 * (digit_val c * 10 ^ length xs + read_nat xs) + digit_val x"
    by (simp add: snoc.IH)
  finally show ?case by (simp add: read_nat_snoc algebra_simps)
qed

lemma canonical_nat_unique: "canonical_nat ds n \<Longrightarrow> ds = show_nat n"
proof (induction n arbitrary: ds rule: show_nat.induct)
  case (1 n)
  from "1.prems" obtain c cs where ds: "ds = c # cs"
    and dig: "list_all is_digit (c # cs)"
    and lead: "cs = [] \<or> c \<in> set ''123456789''"
    and val: "read_nat (c # cs) = n"
    by (auto simp: canonical_nat_def split: list.splits)
  obtain front l where snoc: "c # cs = front @ [l]"
    by (metis append_butlast_last_id list.distinct(1))
  from dig snoc have digl: "is_digit l" and digf: "list_all is_digit front" by simp_all
  from digl obtain d where d: "d < 10" "l = digit_char d" by (rule is_digit_cases)
  have n: "n = 10 * read_nat front + d"
    using val snoc d by (simp add: read_nat_snoc digit_val_digit_char)
  then have div: "n div 10 = read_nat front" and md: "n mod 10 = d" using d by simp_all
  show ?case
  proof (cases front)
    case Nil
    with snoc n d have "n < 10" "ds = [digit_char n]" by (simp_all add: ds read_nat_def)
    then show ?thesis by (subst show_nat.simps) simp
  next
    case (Cons f fs)
    with snoc have cf: "c = f" "cs = fs @ [l]" by simp_all
    with lead have nz: "f \<in> set ''123456789''" by simp
    then obtain e where e: "e < 10" "f = digit_char e"
      using is_digit_cases [of f] by (auto simp: is_digit_def)
    have "e \<noteq> 0"
    proof
      assume "e = 0"
      with e nz show False by (simp add: digit_char_def)
    qed
    then have "0 < digit_val f" using e by (simp add: digit_val_digit_char)
    then have "0 < read_nat front" by (simp add: Cons read_nat_Cons)
    with div have big: "\<not> n < 10" by simp
    have "canonical_nat front (n div 10)"
      using digf nz div by (simp add: canonical_nat_def Cons)
    with big "1.IH" have "front = show_nat (n div 10)" by simp
    with big md d snoc ds show ?thesis by (subst show_nat.simps) simp
  qed
qed

lemma canonical_nat_iff: "canonical_nat ds n \<longleftrightarrow> ds = show_nat n"
  using canonical_nat_unique canonical_nat_show_nat by blast

lemma canonical_int_iff: "canonical_int ds i \<longleftrightarrow> ds = show_int i"
  by (auto simp: canonical_int_def show_int_def canonical_nat_iff split: list.splits)

lemma static_cast_int64_eq: "static_cast_int64 v = word_of_int (integral_value v)"
proof (cases v)
  case (Bool b)
  then show ?thesis by simp
next
  case (Int64 w)
  then show ?thesis by simp
next
  case (UInt64 w)
  then show ?thesis by simp
qed (simp_all only: static_cast_int64.simps integral_value.simps scast_eq ucast_eq)

lemma sint_static_cast_int64:
  "sint (static_cast_int64 v) = (integral_value v + 2 ^ 63) mod 2 ^ 64 - 2 ^ 63"
proof -
  have "sint (static_cast_int64 v) = signed_take_bit 63 (integral_value v)"
    by (simp add: static_cast_int64_eq sint_sbintrunc')
  also have "\<dots> = take_bit 64 (integral_value v + 2 ^ 63) - 2 ^ 63"
    by (simp add: signed_take_bit_eq_take_bit_shift)
  finally show ?thesis by (simp add: take_bit_eq_mod)
qed

lemma sint_of_nat_small:
  assumes "n < 2 ^ 63"
  shows "sint (of_nat n :: 64 word) = int n"
proof -
  have "sint (of_nat n :: 64 word) = signed_take_bit 63 (int n)"
    by (simp add: signed_of_nat)
  also have "\<dots> = int n"
    using assms by (simp add: signed_take_bit_int_eq_self_iff)
  finally show ?thesis .
qed

lemma unat_of_nat_small:
  assumes "n < 2 ^ 64"
  shows "unat (of_nat n :: 64 word) = n"
  using assms by (simp add: unat_of_nat take_bit_nat_eq_self)

subsection \<open>Scalars\<close>

text \<open>
  C5: for an input of any integral type, \<open>integer_put\<close> appends \<open>:\<close>, the canonical
  signed decimal representation of the input's value reduced modulo \<open>2^64\<close> into the
  range of a signed 64-bit integer, and the terminator. The bytes are given for inputs of
  several types, the extremes of the 64-bit range and values that wrap among them.
\<close>

theorem integer_put_decimal:
  "(\<exists>ds. canonical_int ds ((integral_value v + 2 ^ 63) mod 2 ^ 64 - 2 ^ 63) \<and>
         integer_put s v = s @ CHR '':'' # ds @ terminator) \<and>
   integer_put [] (Int32 1000) = '':1000'' @ terminator \<and>
   integer_put [] (Int16 (- 42)) = '':-42'' @ terminator \<and>
   integer_put [] (UInt8 255) = '':255'' @ terminator \<and>
   integer_put [] (Int8 255) = '':-1'' @ terminator \<and>
   integer_put [] (UInt64 18446744073709551615) = '':-1'' @ terminator \<and>
   integer_put [] (Int64 9223372036854775807) = '':9223372036854775807'' @ terminator \<and>
   integer_put [] (Int64 (- 9223372036854775808)) = '':-9223372036854775808'' @ terminator \<and>
   integer_put [] (UInt128 18446744073709551621) = '':5'' @ terminator \<and>
   integer_put [] (Bool True) = '':1'' @ terminator \<and>
   integer_put [] (UInt32 0) = '':0'' @ terminator"
proof (intro conjI)
  have "canonical_int (show_int ((integral_value v + 2 ^ 63) mod 2 ^ 64 - 2 ^ 63))
      ((integral_value v + 2 ^ 63) mod 2 ^ 64 - 2 ^ 63)"
    by (rule canonical_int_show_int)
  moreover have "integer_put s v =
      s @ CHR '':'' # show_int ((integral_value v + 2 ^ 63) mod 2 ^ 64 - 2 ^ 63) @ terminator"
    by (simp add: integer_put_def sint_static_cast_int64 marker_defs terminator_def)
  ultimately show "\<exists>ds. canonical_int ds ((integral_value v + 2 ^ 63) mod 2 ^ 64 - 2 ^ 63) \<and>
         integer_put s v = s @ CHR '':'' # ds @ terminator"
    by blast
qed (simp_all add: integer_put_def show_int_def show_nat.simps digit_char_def marker_defs
    terminator_def)

text \<open>
  C7: for every text, \<open>simple_string_put\<close> appends \<open>+\<close>, the text as it is and the
  terminator, and \<open>error_message_put\<close> appends \<open>-\<close>, the text as it is and the
  terminator.
\<close>

theorem simple_string_error_message_verbatim:
  "simple_string_put s (Some text) = s @ CHR ''+'' # text @ terminator \<and>
   error_message_put s (Some text) = s @ CHR ''-'' # text @ terminator"
  by (simp add: simple_string_put_def error_message_put_def view_bytes_def marker_defs
      terminator_def)

text \<open>A text without the terminator sequence is read back whole, up to the terminator that follows it.\<close>

lemma read_line_terminated:
  "\<not> has_terminator str \<Longrightarrow> read_line (str @ terminator @ rest) = Some (str, rest)"
proof (induction str rule: has_terminator.induct)
  case (1 c d r)
  then show ?case by (simp add: terminator_def)
next
  case (2 c)
  show ?case by (simp add: terminator_def marker_defs)
next
  case 3
  show ?case by (simp add: terminator_def)
qed

text \<open>
  C8: for every text that contains no terminator sequence, encoding it as a simple string
  and decoding the bytes by the wire form (stripping the leading \<open>+\<close> and the trailing
  terminator; or reading up to the first terminator, which leaves no bytes over) gives
  back the text.
\<close>

theorem simple_string_round_trip:
  assumes "\<not> has_terminator text"
  shows "decode_simple_string (simple_string_put [] (Some text)) = Some text \<and>
         read_simple_string (simple_string_put [] (Some text)) = Some (text, [])"
proof
  show "decode_simple_string (simple_string_put [] (Some text)) = Some text"
    by (simp add: decode_simple_string_def simple_string_put_def view_bytes_def
        marker_defs terminator_def)
  have "read_line (text @ terminator @ []) = Some (text, [])"
    using assms by (rule read_line_terminated)
  then show "read_simple_string (simple_string_put [] (Some text)) = Some (text, [])"
    by (simp add: read_simple_string_def simple_string_put_def view_bytes_def
        marker_simple_string_def terminator_def)
qed

theorem simple_string_round_trip_witness:
  "\<not> has_terminator ''OK'' \<and>
   decode_simple_string (simple_string_put [] (Some ''OK'')) = Some ''OK'' \<and>
   read_simple_string (simple_string_put [] (Some ''OK'')) = Some (''OK'', [])"
  using simple_string_round_trip [of "''OK''"]
  by (simp add: marker_defs)

text \<open>
  With a terminator inside the text, reading up to the first terminator stops early: the
  condition on the text is needed for a line-oriented reader.
\<close>

lemma read_simple_string_embedded_terminator:
  "has_terminator (''a'' @ terminator @ ''b'') \<and>
   read_simple_string (simple_string_put [] (Some (''a'' @ terminator @ ''b''))) =
     Some (''a'', ''b'' @ terminator)"
  by (simp add: read_simple_string_def simple_string_put_def view_bytes_def
      marker_defs terminator_def)

text \<open>
  C2: for every byte span with a present payload (the empty span and null bytes included),
  \<open>bulk_string_put\<close> and \<open>binary_data_put\<close> append \<open>$\<close>, the canonical decimal
  representation of the number of bytes, the terminator, the bytes as they are and the
  terminator. For \<open>binary_data\<close> the span is the first \<open>length bytes\<close> bytes of the buffer
  the pointer points into; its length is a byte count of a 64-bit address space, below
  \<open>2^63\<close>. The bytes are given for payloads of 0, 6 and 12 bytes.
\<close>

theorem present_payload_framing:
  "(\<exists>ds. canonical_nat ds (length bytes) \<and>
      bulk_string_put s (Some bytes) = s @ CHR ''$'' # ds @ terminator @ bytes @ terminator \<and>
      (length bytes < 2 ^ 63 \<longrightarrow>
       binary_data_put s \<lparr>data_ptr = Some (bytes @ rest), length_sz = of_nat (length bytes)\<rparr> =
         Inr (s @ CHR ''$'' # ds @ terminator @ bytes @ terminator))) \<and>
   bulk_string_put [] (Some ''foobar'') = ''$6'' @ terminator @ ''foobar'' @ terminator \<and>
   bulk_string_put [] (Some []) = ''$0'' @ terminator @ terminator \<and>
   bulk_string_put [] (Some ''hello, world'') =
     ''$12'' @ terminator @ ''hello, world'' @ terminator \<and>
   binary_data_put [] \<lparr>data_ptr = Some ''hello, world and more'', length_sz = 12\<rparr> =
     Inr (''$12'' @ terminator @ ''hello, world'' @ terminator) \<and>
   binary_data_put [] \<lparr>data_ptr = Some ''abc'', length_sz = 0\<rparr> =
     Inr (''$0'' @ terminator @ terminator)"
proof (intro conjI)
  have bulk: "bulk_string_put s (Some bytes) =
     s @ CHR ''$'' # show_nat (length bytes) @ terminator @ bytes @ terminator"
    by (simp add: bulk_string_put_def view_bytes_def view_length_def marker_defs terminator_def)
  have bin: "binary_data_put s \<lparr>data_ptr = Some (bytes @ rest), length_sz = of_nat (length bytes)\<rparr> =
      Inr (s @ CHR ''$'' # show_nat (length bytes) @ terminator @ bytes @ terminator)"
    if len: "length bytes < 2 ^ 63"
  proof -
    from len have "length bytes < 2 ^ 64" by simp
    then have u: "unat (of_nat (length bytes) :: 64 word) = length bytes"
      by (rule unat_of_nat_small)
    have sg: "sint (of_nat (length bytes) :: 64 word) = int (length bytes)"
      using len by (rule sint_of_nat_small)
    show ?thesis
      by (simp add: binary_data_put_def u sg marker_defs terminator_def)
  qed
  from canonical_nat_show_nat [of "length bytes"] bulk bin
  show "\<exists>ds. canonical_nat ds (length bytes) \<and>
      bulk_string_put s (Some bytes) = s @ CHR ''$'' # ds @ terminator @ bytes @ terminator \<and>
      (length bytes < 2 ^ 63 \<longrightarrow>
       binary_data_put s \<lparr>data_ptr = Some (bytes @ rest), length_sz = of_nat (length bytes)\<rparr> =
         Inr (s @ CHR ''$'' # ds @ terminator @ bytes @ terminator))"
    by blast
qed (simp_all add: bulk_string_put_def binary_data_put_def view_bytes_def view_length_def
    show_nat.simps digit_char_def marker_defs terminator_def)

theorem present_payload_framing_witness:
  "length [CHR ''a'', CHR 0x00, CHR ''b''] < 2 ^ 63 \<and>
   bulk_string_put [] (Some [CHR ''a'', CHR 0x00, CHR ''b'']) =
     ''$3'' @ terminator @ [CHR ''a'', CHR 0x00, CHR ''b''] @ terminator \<and>
   binary_data_put [] \<lparr>data_ptr = Some ([CHR ''a'', CHR 0x00, CHR ''b''] @ ''xyz''),
       length_sz = of_nat (length [CHR ''a'', CHR 0x00, CHR ''b''])\<rparr> =
     Inr (''$3'' @ terminator @ [CHR ''a'', CHR 0x00, CHR ''b''] @ terminator)"
proof -
  have len: "length [CHR ''a'', CHR 0x00, CHR ''b''] < 2 ^ 63" by simp
  from present_payload_framing
    [where s = "[]" and bytes = "[CHR ''a'', CHR 0x00, CHR ''b'']" and rest = "''xyz''"]
  obtain ds where ds: "canonical_nat ds (length [CHR ''a'', CHR 0x00, CHR ''b''])"
    and bulk: "bulk_string_put [] (Some [CHR ''a'', CHR 0x00, CHR ''b'']) =
      [] @ CHR ''$'' # ds @ terminator @ [CHR ''a'', CHR 0x00, CHR ''b''] @ terminator"
    and bin: "length [CHR ''a'', CHR 0x00, CHR ''b''] < 2 ^ 63 \<longrightarrow>
      binary_data_put [] \<lparr>data_ptr = Some ([CHR ''a'', CHR 0x00, CHR ''b''] @ ''xyz''),
        length_sz = of_nat (length [CHR ''a'', CHR 0x00, CHR ''b''])\<rparr> =
      Inr ([] @ CHR ''$'' # ds @ terminator @ [CHR ''a'', CHR 0x00, CHR ''b''] @ terminator)"
    by blast
  have three: "length [CHR ''a'', CHR 0x00, CHR ''b''] = 3" by simp
  from ds have "ds = show_nat (length [CHR ''a'', CHR 0x00, CHR ''b''])"
    by (simp only: canonical_nat_iff)
  then have "ds = ''3''" by (simp only: three) (simp add: show_nat.simps digit_char_def)
  with len bulk bin show ?thesis by simp
qed

text \<open>
  C3: with an absent payload (a null data pointer), \<open>bulk_string_put\<close>,
  \<open>binary_data_put\<close> and \<open>null_put\<close> append exactly the five bytes \<open>$-1\<close> and the
  terminator; the zero-length form \<open>$0\<close>, terminator, terminator is appended exactly
  when the payload is present and empty.
\<close>

theorem absent_payload_null_form:
  "bulk_string_put s None = s @ ''$-1'' @ terminator \<and>
   binary_data_put s \<lparr>data_ptr = None, length_sz = n\<rparr> = Inr (s @ ''$-1'' @ terminator) \<and>
   null_put s = s @ ''$-1'' @ terminator \<and>
   (bulk_string_put s v = s @ ''$0'' @ terminator @ terminator \<longleftrightarrow> v = Some []) \<and>
   (binary_data_put s b = Inr (s @ ''$0'' @ terminator @ terminator) \<longleftrightarrow>
      data_ptr b \<noteq> None \<and> length_sz b = 0)"
proof (intro conjI)
  show "bulk_string_put s None = s @ ''$-1'' @ terminator"
    by (simp add: bulk_string_put_def show_int_minus_1 marker_defs terminator_def)
  show "binary_data_put s \<lparr>data_ptr = None, length_sz = n\<rparr> = Inr (s @ ''$-1'' @ terminator)"
    by (simp add: binary_data_put_def show_int_minus_1 marker_defs terminator_def)
  show "null_put s = s @ ''$-1'' @ terminator"
    by (simp add: null_put_def bulk_string_put_def show_int_minus_1 marker_defs terminator_def)
  show "bulk_string_put s v = s @ ''$0'' @ terminator @ terminator \<longleftrightarrow> v = Some []"
  proof (cases v)
    case None
    then show ?thesis
      by (simp add: bulk_string_put_def show_int_minus_1 marker_defs terminator_def)
  next
    case (Some bytes)
    show ?thesis
    proof
      assume "bulk_string_put s v = s @ ''$0'' @ terminator @ terminator"
      then have "length (bulk_string_put s v) = length (s @ ''$0'' @ terminator @ terminator)"
        by simp
      then have "length (show_nat (length bytes)) + length bytes = 1"
        using Some by (simp add: bulk_string_put_def view_bytes_def view_length_def terminator_def)
      with length_show_nat [of "length bytes"] have "length bytes = 0" by arith
      with Some show "v = Some []" by simp
    next
      assume "v = Some []"
      then show "bulk_string_put s v = s @ ''$0'' @ terminator @ terminator"
        by (simp add: bulk_string_put_def view_bytes_def view_length_def show_nat_0
            marker_defs terminator_def)
    qed
  qed
  show "binary_data_put s b = Inr (s @ ''$0'' @ terminator @ terminator) \<longleftrightarrow>
      data_ptr b \<noteq> None \<and> length_sz b = 0"
  proof (cases "data_ptr b")
    case None
    then show ?thesis
      by (simp add: binary_data_put_def show_int_minus_1 marker_defs terminator_def)
  next
    case (Some mem)
    show ?thesis
    proof
      assume eq: "binary_data_put s b = Inr (s @ ''$0'' @ terminator @ terminator)"
      with Some have ok: "0 \<le> sint (length_sz b)" "nat (sint (length_sz b)) \<le> length mem"
        by (auto simp: binary_data_put_def Let_def split: if_splits)
      from eq Some ok
      have "length (show_nat (unat (length_sz b))) + nat (sint (length_sz b)) = 1"
        by (auto simp: binary_data_put_def Let_def terminator_def split: if_splits
            dest!: arg_cong [where f = length])
      with length_show_nat [of "unat (length_sz b)"] have "nat (sint (length_sz b)) = 0"
        by arith
      with ok have "sint (length_sz b) = 0" by simp
      then have "word_of_int (sint (length_sz b)) = (0 :: 64 word)" by simp
      then have "length_sz b = 0" by simp
      with Some show "data_ptr b \<noteq> None \<and> length_sz b = 0" by simp
    next
      assume "data_ptr b \<noteq> None \<and> length_sz b = 0"
      with Some show "binary_data_put s b = Inr (s @ ''$0'' @ terminator @ terminator)"
        by (simp add: binary_data_put_def show_nat_0 marker_defs terminator_def)
    qed
  qed
qed

text \<open>
  C9: a \<open>binary_data\<close> with the null data pointer encodes as \<open>$-1\<close> and the terminator
  for every length, and one with a non-null data pointer never does, whatever the length.
\<close>

theorem null_pointer_ignores_length:
  "binary_data_put s \<lparr>data_ptr = None, length_sz = n\<rparr> = Inr (s @ ''$-1'' @ terminator) \<and>
   binary_data_put s \<lparr>data_ptr = Some mem, length_sz = n\<rparr> \<noteq> Inr (s @ ''$-1'' @ terminator)"
proof
  show "binary_data_put s \<lparr>data_ptr = None, length_sz = n\<rparr> = Inr (s @ ''$-1'' @ terminator)"
    by (simp add: binary_data_put_def show_int_minus_1 marker_defs terminator_def)
  show "binary_data_put s \<lparr>data_ptr = Some mem, length_sz = n\<rparr> \<noteq> Inr (s @ ''$-1'' @ terminator)"
  proof
    assume "binary_data_put s \<lparr>data_ptr = Some mem, length_sz = n\<rparr> = Inr (s @ ''$-1'' @ terminator)"
    then have "length (show_nat (unat n)) + nat (sint n) = 0"
      by (auto simp: binary_data_put_def Let_def terminator_def split: if_splits
            dest!: arg_cong [where f = length])
    with length_show_nat [of "unat n"] show False by arith
  qed
qed

subsection \<open>Arrays\<close>

text \<open>
  C6: the null array encodes as exactly the five bytes \<open>*-1\<close> and the terminator, with
  no item bytes; the empty list array and the empty fixed array encode as \<open>*0\<close> and
  the terminator, which is different.
\<close>

theorem null_array_form:
  "array_put s Null_array = Inr (s @ ''*-1'' @ terminator) \<and>
   array_put s (array_list []) = Inr (s @ ''*0'' @ terminator) \<and>
   array_put s (array_values []) = Inr (s @ ''*0'' @ terminator) \<and>
   array_put s Null_array \<noteq> array_put s (array_list []) \<and>
   array_put s Null_array \<noteq> array_put s (array_values [])"
  by (simp add: array_list_def count_items_def put_list_def show_int_minus_1 show_nat_0
      marker_defs terminator_def)










text \<open>
  With the template arguments written out, a single array item is wrapped as any other
  item is; the copy of an array built from the single item \<open>Null\<close> is the null array.
\<close>

lemma fixed_array_explicit_nested:
  "array_put [] (array_values [Array (array_values [Integer (Int32 7)])]) =
     Inr (''*1'' @ terminator @ ''*1'' @ terminator @ '':7'' @ terminator) \<and>
   array_put [] (array_deduced [Array (array_deduced [Null])]) = Inr (''*-1'' @ terminator)"
  by (simp add: integer_put_def show_int_def show_nat.simps digit_char_def marker_defs
      terminator_def)




text \<open>
  C10: the array built from the single item \<open>Null\<close> is the null-array specialization,
  whether its class is named with the template argument or deduced from the item; it
  encodes as \<open>*-1\<close> and the terminator, not as the one-element array \<open>*1\<close>,
  terminator, \<open>$-1\<close>, terminator.
\<close>

theorem single_null_item_is_null_array:
  "array_values [Null] = Null_array \<and>
   array_put s (array_values [Null]) = Inr (s @ ''*-1'' @ terminator) \<and>
   array_put s (array_values [Null]) \<noteq> Inr (s @ ''*1'' @ terminator @ ''$-1'' @ terminator) \<and>
   array_deduced [Null] = Null_array \<and>
   array_put s (array_deduced [Null]) = Inr (s @ ''*-1'' @ terminator) \<and>
   array_put s (array_deduced [Null]) \<noteq> Inr (s @ ''*1'' @ terminator @ ''$-1'' @ terminator)"
  by (simp add: show_int_minus_1 marker_defs terminator_def)

end
